theory Spec2Isabelle
  imports Complex_Main "HOL-Library.AList"
begin

section \<open>Exceptions\<close>

text \<open>
  Every exception of the source is a value. The constructors are the exception classes
  the code names or that Python raises on the operations the code performs;
  \<open>OtherException\<close> stands for any further subclass of \<open>Exception\<close> raised by a
  library call. \<open>str_exn\<close> is Python's \<open>str(e)\<close>.
\<close>

datatype exn =
    TimeoutException string
  | ConnectError string
  | ValueError string
  | KeyError string
  | TypeError string
  | AttributeError string
  | IndexError string
  | HTTPException int string
  | OtherException string

section \<open>Strings\<close>

definition is_digit :: "char \<Rightarrow> bool" where
  "is_digit c = (c \<in> set ''0123456789'')"

text \<open>
  \<open>re.findall(r"\d+", card)\<close>: a left-to-right scan. \<open>cur\<close> is the run of digits being
  read; a character that is not a digit closes it.
\<close>

fun scan_digits :: "string \<Rightarrow> string \<Rightarrow> string list" where
  "scan_digits cur [] = (if cur = [] then [] else [cur])"
| "scan_digits cur (c # cs) =
     (if is_digit c then scan_digits (cur @ [c]) cs
      else if cur = [] then scan_digits [] cs
      else cur # scan_digits [] cs)"

definition findall_digits :: "string \<Rightarrow> string list" where
  "findall_digits s = scan_digits [] s"

definition card_format_message :: string where
  "card_format_message =
     ''Card format is incorrect. Expected format: card_number|exp_month|exp_year|cvv''"

text \<open>
  \<open>parse_card\<close>: the first four matches are unpacked into four names; with fewer than
  four the unpacking raises ValueError, which the handler replaces by a ValueError with
  the fixed message.
\<close>

definition parse_card :: "string \<Rightarrow> exn + (string \<times> string \<times> string \<times> string)" where
  "parse_card cc =
     (case take 4 (findall_digits cc) of
        [card_number, exp_month, exp_year, cvv] \<Rightarrow> Inr (card_number, exp_month, exp_year, cvv)
      | _ \<Rightarrow> Inl (ValueError card_format_message))"





section \<open>Card fields as submitted\<close>

text \<open>
  \<open>str.zfill(width)\<close>: a string at least \<open>width\<close> long is returned as it is; a shorter
  one is filled with zeros on the left, after a leading sign character if there is one.
\<close>

definition zfill :: "nat \<Rightarrow> string \<Rightarrow> string" where
  "zfill width s =
     (if width \<le> length s then s
      else (case s of
              [] \<Rightarrow> replicate width CHR ''0''
            | c # cs \<Rightarrow>
                if c = CHR ''+'' \<or> c = CHR ''-''
                then c # replicate (width - length s) CHR ''0'' @ cs
                else replicate (width - length s) CHR ''0'' @ s))"

text \<open>The slice \<open>s[-2:]\<close>: the last two characters, or all of a shorter string.\<close>

definition last_two :: "string \<Rightarrow> string" where
  "last_two s = drop (length s - 2) s"

record card_fields =
  cardNumber :: string
  ddlExpirationMonth :: string
  ddlExpirationYear :: string
  CVV :: string

text \<open>The four card fields of the form posted by \<open>verify_card_with_cached_session\<close>.\<close>

definition card_fields_cached :: "string \<Rightarrow> string \<Rightarrow> string \<Rightarrow> string \<Rightarrow> card_fields" where
  "card_fields_cached card_number exp_month exp_year cvv =
     \<lparr> cardNumber = card_number,
       ddlExpirationMonth = zfill 2 exp_month,
       ddlExpirationYear = (if length exp_year = 2 then exp_year else last_two exp_year),
       CVV = zfill 3 cvv \<rparr>"

text \<open>The four card fields of the form posted by request 9 of \<open>worldpay_auth\<close>.\<close>

definition card_fields_full :: "string \<Rightarrow> string \<Rightarrow> string \<Rightarrow> string \<Rightarrow> card_fields" where
  "card_fields_full card_number exp_month exp_year cvv =
     \<lparr> cardNumber = card_number,
       ddlExpirationMonth = zfill 2 exp_month,
       ddlExpirationYear = (if length exp_year = 2 then exp_year else last_two exp_year),
       CVV = zfill 3 cvv \<rparr>"


section \<open>Substrings and splitting\<close>

definition starts_with :: "string \<Rightarrow> string \<Rightarrow> bool" where
  "starts_with sub s = (take (length sub) s = sub)"

text \<open>\<open>sub in s\<close> on strings.\<close>

fun contains :: "string \<Rightarrow> string \<Rightarrow> bool" where
  "contains sub [] = (sub = [])"
| "contains sub (c # cs) = (starts_with sub (c # cs) \<or> contains sub cs)"

text \<open>
  \<open>s.split(sep, 1)\<close> for a non-empty separator (the only separator of the source is the
  literal \<open>": "\<close>): one piece when \<open>sep\<close> does not occur, otherwise the text before the
  leftmost occurrence and the text after it. \<open>acc\<close> is the text already passed.
\<close>

fun split_once :: "string \<Rightarrow> string \<Rightarrow> string \<Rightarrow> string list" where
  "split_once sep acc [] = (if starts_with sep [] then [acc, []] else [acc])"
| "split_once sep acc (c # cs) =
     (if starts_with sep (c # cs) then [acc, drop (length sep) (c # cs)]
      else split_once sep (acc @ [c]) cs)"

definition split1 :: "string \<Rightarrow> string \<Rightarrow> string list" where
  "split1 sep s = split_once sep [] s"

text \<open>The subscript \<open>[1]\<close> on a list: IndexError when the list is too short.\<close>

definition item1 :: "'a list \<Rightarrow> exn + 'a" where
  "item1 xs = (case xs of _ # b # _ \<Rightarrow> Inr b | _ \<Rightarrow> Inl (IndexError ''list index out of range''))"

text \<open>
  The words of the specification: \<open>sub\<close> occurs in \<open>s\<close>, and \<open>msg\<close> is what is left of
  \<open>s\<close> when everything up to the first \<open>sep\<close> is stripped.
\<close>

definition occurs :: "string \<Rightarrow> string \<Rightarrow> bool" where
  "occurs sub s = (\<exists>p q. s = p @ sub @ q)"

definition stripped_to_first :: "string \<Rightarrow> string \<Rightarrow> string \<Rightarrow> bool" where
  "stripped_to_first sep s msg =
     (\<exists>pre. s = pre @ sep @ msg \<and> (\<forall>p q. s = p @ sep @ q \<longrightarrow> length pre \<le> length p))"

section \<open>JSON values and HTTP responses\<close>

text \<open>
  What \<open>json.load\<close> and \<open>resp.json()\<close> return: None, bool, int, float, str, list and
  dict. A dict keeps its insertion order, so it is an association list; its keys are
  distinct.
\<close>

datatype json =
    JNull
  | JBool bool
  | JInt int
  | JFloat real
  | JStr string
  | JArr "json list"
  | JObj "(string \<times> json) list"

text \<open>
  An HTTP response, as far as the code looks at it: the status code, the outcome of
  \<open>resp.json()\<close>, and what the HTML parser finds in \<open>resp.text\<close>: the text of the first
  \<open>span\<close> of class \<open>error\<close> if there is one, and the \<open>value\<close> of the hidden inputs
  \<open>__VIEWSTATE\<close>, \<open>__VIEWSTATEGENERATOR\<close> and \<open>__EVENTVALIDATION\<close>, where present
  (\<open>tag.get("value", "")\<close>). Parsing HTML does not raise.
\<close>

record response =
  status_code :: int
  json_body :: "exn + json"
  error_span :: "string option"
  viewstate_input :: "string option"
  viewstategenerator_input :: "string option"
  eventvalidation_input :: "string option"

section \<open>Classifying the payment page\<close>

definition error_message_of :: "string \<Rightarrow> exn + string" where
  "error_message_of error_text =
     (if contains '': '' error_text then item1 (split1 '': '' error_text) else Inr error_text)"

text \<open>
  The end of \<open>verify_card_with_cached_session\<close>, after the status check. A tag object is
  always true, so \<open>if error_span\<close> asks whether a span was found.
\<close>

definition classify_cached :: "response \<Rightarrow> exn + (string \<times> string)" where
  "classify_cached resp =
     (case error_span resp of
        Some error_text \<Rightarrow>
          (case error_message_of error_text of
             Inl e \<Rightarrow> Inl e
           | Inr error_message \<Rightarrow>
               if contains ''CVV2'' error_message then Inr (''approved'', error_message)
               else Inr (''declined'', error_message))
      | None \<Rightarrow> Inr (''approved'', ''Card added successfully.''))"

text \<open>The end of \<open>worldpay_auth\<close>, after the status check of request 9.\<close>

definition classify_full :: "response \<Rightarrow> exn + (string \<times> string)" where
  "classify_full resp =
     (case error_span resp of
        Some error_text \<Rightarrow>
          (case error_message_of error_text of
             Inl e \<Rightarrow> Inl e
           | Inr error_message \<Rightarrow>
               if contains ''CVV2'' error_message then Inr (''approved'', error_message)
               else Inr (''declined'', error_message))
      | None \<Rightarrow> Inr (''approved'', ''Card added successfully.''))"

section \<open>Python operations on JSON values\<close>

definition then_do :: "exn + 'a \<Rightarrow> ('a \<Rightarrow> exn + 'b) \<Rightarrow> exn + 'b" where
  "then_do r f = (case r of Inl e \<Rightarrow> Inl e | Inr a \<Rightarrow> f a)"

text \<open>A text between single quotes, as Python's messages show names.\<close>

definition quoted :: "string \<Rightarrow> string" where
  "quoted s = CHR 0x27 # s @ [CHR 0x27]"

fun type_name :: "json \<Rightarrow> string" where
  "type_name JNull = ''NoneType''"
| "type_name (JBool b) = ''bool''"
| "type_name (JInt i) = ''int''"
| "type_name (JFloat r) = ''float''"
| "type_name (JStr s) = ''str''"
| "type_name (JArr xs) = ''list''"
| "type_name (JObj kvs) = ''dict''"

text \<open>Truth value of an object in \<open>if x\<close> and \<open>not x\<close>.\<close>

fun truthy :: "json \<Rightarrow> bool" where
  "truthy JNull = False"
| "truthy (JBool b) = b"
| "truthy (JInt i) = (i \<noteq> 0)"
| "truthy (JFloat r) = (r \<noteq> 0)"
| "truthy (JStr s) = (s \<noteq> [])"
| "truthy (JArr xs) = (xs \<noteq> [])"
| "truthy (JObj kvs) = (kvs \<noteq> [])"

text \<open>\<open>x.get(key, default)\<close>: only a dict has the method.\<close>

fun py_get :: "json \<Rightarrow> string \<Rightarrow> json \<Rightarrow> exn + json" where
  "py_get (JObj kvs) key dflt = Inr (case map_of kvs key of Some v \<Rightarrow> v | None \<Rightarrow> dflt)"
| "py_get x key dflt =
     Inl (AttributeError (quoted (type_name x) @ '' object has no attribute '' @ quoted ''get''))"

text \<open>
  \<open>for item in x\<close>: the elements of a list, the keys of a dict, the characters of a
  string; anything else is not iterable.
\<close>

fun py_iter :: "json \<Rightarrow> exn + json list" where
  "py_iter (JArr xs) = Inr xs"
| "py_iter (JObj kvs) = Inr (map (\<lambda>kv. JStr (fst kv)) kvs)"
| "py_iter (JStr s) = Inr (map (\<lambda>c. JStr [c]) s)"
| "py_iter x = Inl (TypeError (quoted (type_name x) @ '' object is not iterable''))"

text \<open>\<open>len(x)\<close>.\<close>

fun py_len :: "json \<Rightarrow> exn + nat" where
  "py_len (JArr xs) = Inr (length xs)"
| "py_len (JObj kvs) = Inr (length kvs)"
| "py_len (JStr s) = Inr (length s)"
| "py_len x = Inl (TypeError (''object of type '' @ quoted (type_name x) @ '' has no len()''))"

text \<open>\<open>key in x\<close> for a string \<open>key\<close>.\<close>

fun py_in :: "string \<Rightarrow> json \<Rightarrow> exn + bool" where
  "py_in key (JObj kvs) = Inr (map_of kvs key \<noteq> None)"
| "py_in key (JArr xs) = Inr (JStr key \<in> set xs)"
| "py_in key (JStr s) = Inr (contains key s)"
| "py_in key x = Inl (TypeError (''argument of type '' @ quoted (type_name x) @ '' is not iterable''))"

text \<open>\<open>x[key]\<close> for a string \<open>key\<close>.\<close>

fun py_getitem :: "json \<Rightarrow> string \<Rightarrow> exn + json" where
  "py_getitem (JObj kvs) key = (case map_of kvs key of Some v \<Rightarrow> Inr v | None \<Rightarrow> Inl (KeyError key))"
| "py_getitem (JArr xs) key = Inl (TypeError ''list indices must be integers or slices, not str'')"
| "py_getitem (JStr s) key = Inl (TypeError (''string indices must be integers, not '' @ quoted ''str''))"
| "py_getitem x key = Inl (TypeError (quoted (type_name x) @ '' object is not subscriptable''))"

text \<open>\<open>x[key] = v\<close> for a string \<open>key\<close>; a dict keeps the place of a key it already has.\<close>

fun py_setitem :: "json \<Rightarrow> string \<Rightarrow> json \<Rightarrow> exn + json" where
  "py_setitem (JObj kvs) key v = Inr (JObj (AList.update key v kvs))"
| "py_setitem (JArr xs) key v = Inl (TypeError ''list indices must be integers or slices, not str'')"
| "py_setitem x key v =
     Inl (TypeError (quoted (type_name x) @ '' object does not support item assignment''))"

text \<open>\<open>del x[key]\<close> for a string \<open>key\<close>.\<close>

fun py_delitem :: "json \<Rightarrow> string \<Rightarrow> exn + json" where
  "py_delitem (JObj kvs) key =
     (if map_of kvs key = None then Inl (KeyError key) else Inr (JObj (AList.delete key kvs)))"
| "py_delitem (JArr xs) key = Inl (TypeError ''list indices must be integers or slices, not str'')"
| "py_delitem x key =
     Inl (TypeError (quoted (type_name x) @ '' object doesn'' @ [CHR 0x27] @ ''t support item deletion''))"

text \<open>\<open>t - x\<close> for a float \<open>t\<close>: \<open>x\<close> has to be a number (a bool counts as 0 or 1).\<close>

fun py_float_sub :: "real \<Rightarrow> json \<Rightarrow> exn + real" where
  "py_float_sub t (JInt i) = Inr (t - real_of_int i)"
| "py_float_sub t (JFloat r) = Inr (t - r)"
| "py_float_sub t (JBool b) = Inr (t - (if b then 1 else 0))"
| "py_float_sub t x =
     Inl (TypeError (''unsupported operand type(s) for -: '' @ quoted ''float'' @ '' and '' @ quoted (type_name x)))"

text \<open>\<open>x == n\<close> for an int literal \<open>n\<close> other than 0 and 1, and \<open>x == s\<close> for a string literal.\<close>

definition py_eq_int :: "json \<Rightarrow> int \<Rightarrow> bool" where
  "py_eq_int x n = (x = JInt n \<or> x = JFloat (real_of_int n))"

definition py_eq_str :: "json \<Rightarrow> string \<Rightarrow> bool" where
  "py_eq_str x s = (x = JStr s)"

text \<open>\<open>str(n)\<close> for integers.\<close>

definition digit_char :: "nat \<Rightarrow> char" where
  "digit_char d = ''0123456789'' ! d"

fun str_nat :: "nat \<Rightarrow> string" where
  "str_nat n = (if n < 10 then [digit_char n] else str_nat (n div 10) @ [digit_char (n mod 10)])"

declare str_nat.simps [simp del]

definition str_int :: "int \<Rightarrow> string" where
  "str_int i = (if i < 0 then CHR ''-'' # str_nat (nat (- i)) else str_nat (nat i))"

text \<open>
  \<open>str(e)\<close>: the message of the exception; for KeyError the quoted key, for
  HTTPException the status code and the detail.
\<close>

fun str_exn :: "exn \<Rightarrow> string" where
  "str_exn (TimeoutException m) = m"
| "str_exn (ConnectError m) = m"
| "str_exn (ValueError m) = m"
| "str_exn (KeyError k) = quoted k"
| "str_exn (TypeError m) = m"
| "str_exn (AttributeError m) = m"
| "str_exn (IndexError m) = m"
| "str_exn (HTTPException c d) = str_int c @ '': '' @ d"
| "str_exn (OtherException m) = m"

text \<open>\<open>s.upper()\<close> on the letters a to z; the status words hold no other character.\<close>

definition upper_char :: "char \<Rightarrow> char" where
  "upper_char c =
     (case map_of (zip ''abcdefghijklmnopqrstuvwxyz'' ''ABCDEFGHIJKLMNOPQRSTUVWXYZ'') c of
        Some u \<Rightarrow> u | None \<Rightarrow> c)"

definition upper :: "string \<Rightarrow> string" where
  "upper s = map upper_char s"

section \<open>The world outside the program\<close>

text \<open>
  The cache file: absent, present but not loadable (it cannot be opened or does not hold
  JSON), or holding a JSON value.
\<close>

datatype cache_file = NoFile | Unreadable | Content json

text \<open>
  One invocation of the underlying HTTP client method either raises or returns a
  response.
\<close>

datatype attempt = Raises exn | Responds response

text \<open>What writing the cache file does: it succeeds, \<open>open\<close> fails, or \<open>json.dump\<close> fails.\<close>

datatype write_outcome = WriteOk | OpenFails | DumpFails

text \<open>
  What the program does not decide: the outcome of the \<open>n\<close>-th invocation of a client
  method, the value of the \<open>n\<close>-th reading of \<open>time.time()\<close>, the outcome of writing the
  cache file, the generated browser identity, and the cookies of the client when the
  session is saved. The outcome of an invocation does not depend on what is sent, so
  every answer of the remote site is covered.
\<close>

record env =
  net :: "nat \<Rightarrow> attempt"
  clock :: "nat \<Rightarrow> real"
  cache_write :: write_outcome
  user_agent :: string
  client_cookies :: "(string \<times> string) list"

text \<open>
  Observable actions, in order: an invocation of a client method, a sleep of so many
  seconds, the card fields put into the form that is about to be posted, the entry into
  the quick verification, the entry into the full flow, and the retry announced by
  \<open>check_card\<close>.
\<close>

datatype event = EvCall | EvSleep nat | EvSubmit card_fields | EvQuick | EvFull | EvRetryFull

text \<open>
  The state: how many client invocations and clock readings have happened, the cache
  file, the \<open>sessions\<close> attribute of the live \<open>SessionCache\<close> object, and the actions so
  far.
\<close>

record world =
  net_calls :: nat
  clock_reads :: nat
  disk :: cache_file
  sessions :: json
  trace :: "event list"

definition time_time :: "env \<Rightarrow> world \<Rightarrow> real \<times> world" where
  "time_time E w = (clock E (clock_reads w), w\<lparr>clock_reads := Suc (clock_reads w)\<rparr>)"

definition emit :: "event \<Rightarrow> world \<Rightarrow> world" where
  "emit ev w = w\<lparr>trace := trace w @ [ev]\<rparr>"

section \<open>SessionCache\<close>

text \<open>A store id is passed as an int (the default 1021) or as a string; \<open>str\<close> of it is the key.\<close>

datatype store_id = StoreInt int | StoreStr string

fun str_store :: "store_id \<Rightarrow> string" where
  "str_store (StoreInt i) = str_int i"
| "str_store (StoreStr s) = s"

text \<open>
  \<open>load_cache\<close>: without a file the sessions stay as they are; with a file, the loaded
  value is assigned and its length printed, and any exception on the way resets the
  sessions to the empty dict.
\<close>

definition load_cache_try :: "cache_file \<Rightarrow> exn + json" where
  "load_cache_try f =
     (case f of
        NoFile \<Rightarrow> Inl (OtherException ''No such file or directory'')
      | Unreadable \<Rightarrow> Inl (OtherException ''cannot load the cache file'')
      | Content j \<Rightarrow> then_do (py_len j) (\<lambda>n. Inr j))"

definition load_cache :: "world \<Rightarrow> world" where
  "load_cache w =
     (if disk w \<noteq> NoFile
      then (case load_cache_try (disk w) of
              Inr j \<Rightarrow> w\<lparr>sessions := j\<rparr>
            | Inl e \<Rightarrow> w\<lparr>sessions := JObj []\<rparr>)
      else w)"

text \<open>\<open>SessionCache()\<close>: the sessions start as the empty dict, then the cache is loaded.\<close>

definition new_SessionCache :: "world \<Rightarrow> world" where
  "new_SessionCache w = load_cache (w\<lparr>sessions := JObj []\<rparr>)"

text \<open>\<open>save_cache\<close>: the write is tried and any exception is swallowed.\<close>

definition save_cache_try :: "env \<Rightarrow> world \<Rightarrow> (exn + unit) \<times> world" where
  "save_cache_try E w =
     (case cache_write E of
        WriteOk \<Rightarrow> (Inr (), w\<lparr>disk := Content (sessions w)\<rparr>)
      | OpenFails \<Rightarrow> (Inl (OtherException ''cannot open the cache file''), w)
      | DumpFails \<Rightarrow> (Inl (OtherException ''cannot write the cache file''), w\<lparr>disk := Unreadable\<rparr>))"

definition save_cache :: "env \<Rightarrow> world \<Rightarrow> world" where
  "save_cache E w = snd (save_cache_try E w)"

text \<open>
  \<open>get_session\<close>. The clock is read before \<open>session.get\<close> is evaluated. None is the JSON
  value \<open>JNull\<close>.
\<close>

definition get_session :: "env \<Rightarrow> store_id \<Rightarrow> world \<Rightarrow> (exn + json) \<times> world" where
  "get_session E store w =
     (let store_key = str_store store in
      case py_in store_key (sessions w) of
        Inl e \<Rightarrow> (Inl e, w)
      | Inr False \<Rightarrow> (Inr JNull, w)
      | Inr True \<Rightarrow>
          (case py_getitem (sessions w) store_key of
             Inl e \<Rightarrow> (Inl e, w)
           | Inr session \<Rightarrow>
               (let (now, w1) = time_time E w in
                case then_do (py_get session ''timestamp'' (JInt 0)) (py_float_sub now) of
                  Inl e \<Rightarrow> (Inl e, w1)
                | Inr age \<Rightarrow>
                    if age < 1800 then (Inr session, w1)
                    else (case py_delitem (sessions w1) store_key of
                            Inl e \<Rightarrow> (Inl e, w1)
                          | Inr rest \<Rightarrow> (Inr JNull, w1\<lparr>sessions := rest\<rparr>)))))"

text \<open>\<open>save_session\<close>; \<open>session_data\<close> is a dict, given by its items.\<close>

definition save_session ::
  "env \<Rightarrow> store_id \<Rightarrow> (string \<times> json) list \<Rightarrow> world \<Rightarrow> (exn + unit) \<times> world" where
  "save_session E store session_data w =
     (let store_key = str_store store;
          (now, w1) = time_time E w;
          stamped = AList.update ''timestamp'' (JFloat now) session_data
      in case py_setitem (sessions w1) store_key (JObj stamped) of
           Inl e \<Rightarrow> (Inl e, w1)
         | Inr s \<Rightarrow> (Inr (), save_cache E (w1\<lparr>sessions := s\<rparr>)))"

section \<open>The retry wrapper\<close>

text \<open>
  The loop of \<open>retry_request\<close> over \<open>range(1, attempts + 1)\<close>. \<open>retry\<close> tells whether an
  exception is one of \<open>exceptions\<close>; any other exception leaves the loop at once.
  \<open>last_exception\<close> is raised when the range is used up.
\<close>

fun retry_loop ::
  "(exn \<Rightarrow> bool) \<Rightarrow> nat \<Rightarrow> nat \<Rightarrow> (world \<Rightarrow> (exn + 'a) \<times> world) \<Rightarrow> nat list \<Rightarrow> exn \<Rightarrow>
   world \<Rightarrow> (exn + 'a) \<times> world" where
  "retry_loop retry attempts delay func [] last_exception w = (Inl last_exception, w)"
| "retry_loop retry attempts delay func (attempt # rest) last_exception w =
     (case func w of
        (Inr v, w1) \<Rightarrow> (Inr v, w1)
      | (Inl e, w1) \<Rightarrow>
          if retry e
          then retry_loop retry attempts delay func rest e
                 (if attempt < attempts then emit (EvSleep delay) w1 else w1)
          else (Inl e, w1))"

text \<open>
  Before the first attempt \<open>last_exception\<close> holds the tuple of exception classes, and
  raising a tuple is a TypeError.
\<close>

definition retry_request ::
  "nat \<Rightarrow> nat \<Rightarrow> (exn \<Rightarrow> bool) \<Rightarrow> (world \<Rightarrow> (exn + 'a) \<times> world) \<Rightarrow> world \<Rightarrow> (exn + 'a) \<times> world" where
  "retry_request attempts delay retry func w =
     retry_loop retry attempts delay func [1 ..< attempts + 1]
       (TypeError ''exceptions must derive from BaseException'') w"

text \<open>An invocation of a method of the HTTP client (\<open>client.post\<close>, \<open>client.put\<close>, \<open>client.get\<close>).\<close>

definition session_method :: "env \<Rightarrow> world \<Rightarrow> (exn + response) \<times> world" where
  "session_method E w =
     (let w1 = emit EvCall (w\<lparr>net_calls := Suc (net_calls w)\<rparr>)
      in case net E (net_calls w) of
           Raises e \<Rightarrow> (Inl e, w1)
         | Responds r \<Rightarrow> (Inr r, w1))"

text \<open>The exceptions \<open>request_with_retry\<close> lists: httpx.TimeoutException and httpx.ConnectError.\<close>

fun timeout_or_connect :: "exn \<Rightarrow> bool" where
  "timeout_or_connect (TimeoutException m) = True"
| "timeout_or_connect (ConnectError m) = True"
| "timeout_or_connect e = False"

definition request_with_retry :: "env \<Rightarrow> world \<Rightarrow> (exn + response) \<times> world" where
  "request_with_retry E w = retry_request 3 1 timeout_or_connect (session_method E) w"

text \<open>
  The words of the specification about one attempt: it is retried when it raises one of
  the listed exceptions, and its outcome is what it returns or raises.
\<close>

definition retried :: "attempt \<Rightarrow> bool" where
  "retried a = (case a of Raises e \<Rightarrow> timeout_or_connect e | Responds r \<Rightarrow> False)"

definition outcome :: "attempt \<Rightarrow> exn + response" where
  "outcome a = (case a of Raises e \<Rightarrow> Inl e | Responds r \<Rightarrow> Inr r)"

section \<open>Control flow inside a try block\<close>

text \<open>
  A statement of a \<open>try\<close> body goes on to the next statement with a value, returns a
  (status, message) pair from the function, or raises.
\<close>

datatype 'a flow = Next 'a | Return "string \<times> string" | Raise exn

definition andthen ::
  "(world \<Rightarrow> 'a flow \<times> world) \<Rightarrow> ('a \<Rightarrow> world \<Rightarrow> 'b flow \<times> world) \<Rightarrow> world \<Rightarrow> 'b flow \<times> world" where
  "andthen m f w =
     (case m w of
        (Next a, w1) \<Rightarrow> f a w1
      | (Return r, w1) \<Rightarrow> (Return r, w1)
      | (Raise e, w1) \<Rightarrow> (Raise e, w1))"

text \<open>An expression that may raise, a \<open>return\<close> statement, and a call that changes the world.\<close>

definition compute :: "exn + 'a \<Rightarrow> world \<Rightarrow> 'a flow \<times> world" where
  "compute r w = (case r of Inl e \<Rightarrow> (Raise e, w) | Inr a \<Rightarrow> (Next a, w))"

definition return_pair :: "string \<times> string \<Rightarrow> world \<Rightarrow> 'a flow \<times> world" where
  "return_pair r w = (Return r, w)"

definition perform :: "(world \<Rightarrow> (exn + 'a) \<times> world) \<Rightarrow> world \<Rightarrow> 'a flow \<times> world" where
  "perform m w = (case m w of (Inl e, w1) \<Rightarrow> (Raise e, w1) | (Inr a, w1) \<Rightarrow> (Next a, w1))"

text \<open>
  The pattern every request of \<open>worldpay_auth\<close> follows: the call through
  \<open>request_with_retry\<close>, then the check of the status code, which returns the error pair
  naming \<open>req_num\<close>.
\<close>

definition request :: "env \<Rightarrow> nat \<Rightarrow> world \<Rightarrow> response flow \<times> world" where
  "request E req_num =
     andthen (perform (request_with_retry E))
       (\<lambda>resp. if status_code resp \<noteq> 200
               then return_pair (''error'', ''Request '' @ str_nat req_num @ '' failed'')
               else compute (Inr resp))"

section \<open>verify_card_with_cached_session\<close>

text \<open>
  The five subscripts and the \<open>get\<close> on the cached session come before the \<open>try\<close>;
  inside it, a status other than 200 and any exception give None.
\<close>

definition cached_session_fields :: "json \<Rightarrow> exn + json" where
  "cached_session_fields cached_session =
     then_do (py_getitem cached_session ''user_agent'') (\<lambda>user_agent.
     then_do (py_getitem cached_session ''transaction_id'') (\<lambda>transaction_id.
     then_do (py_getitem cached_session ''viewstate'') (\<lambda>viewstate.
     then_do (py_getitem cached_session ''viewstategenerator'') (\<lambda>viewstategenerator.
     then_do (py_getitem cached_session ''eventvalidation'') (\<lambda>eventvalidation.
     py_get cached_session ''cookies'' (JObj []))))))"

definition verify_card_with_cached_session ::
  "env \<Rightarrow> string \<times> string \<times> string \<times> string \<Rightarrow> json \<Rightarrow> world \<Rightarrow>
   (exn + (string \<times> string) option) \<times> world" where
  "verify_card_with_cached_session E cd cached_session w =
     (case cd of (card_number, exp_month, exp_year, cvv) \<Rightarrow>
      (case cached_session_fields cached_session of
         Inl e \<Rightarrow> (Inl e, w)
       | Inr cookies \<Rightarrow>
           (case request_with_retry E
                   (emit (EvSubmit (card_fields_cached card_number exp_month exp_year cvv))
                      (emit EvQuick w)) of
              (Inl e, w1) \<Rightarrow> (Inr None, w1)
            | (Inr resp, w1) \<Rightarrow>
                if status_code resp \<noteq> 200 then (Inr None, w1)
                else (case classify_cached resp of
                        Inl e \<Rightarrow> (Inr None, w1)
                      | Inr result \<Rightarrow> (Inr (Some result), w1)))))"

section \<open>worldpay_auth\<close>

text \<open>What the flow reads from the JSON bodies of requests 1, 3, 5 and 7.\<close>

definition cart_id_of :: "response \<Rightarrow> exn + json" where
  "cart_id_of resp =
     then_do (json_body resp) (\<lambda>j.
     then_do (py_get j ''Result'' JNull) (\<lambda>result.
     py_get result ''Reference'' JNull))"

fun first_open :: "json list \<Rightarrow> exn + json option" where
  "first_open [] = Inr None"
| "first_open (slot # slots) =
     (case py_get slot ''Availability'' JNull of
        Inl e \<Rightarrow> Inl e
      | Inr a \<Rightarrow> if py_eq_str a ''Open'' then Inr (Some slot) else first_open slots)"

fun open_slot_in :: "json list \<Rightarrow> exn + json option" where
  "open_slot_in [] = Inr None"
| "open_slot_in (location # locations) =
     (case py_get location ''Id'' JNull of
        Inl e \<Rightarrow> Inl e
      | Inr i \<Rightarrow>
          if py_eq_int i 1986
          then (case then_do (py_get location ''TimeSlots'' (JArr []))
                       (\<lambda>ts. then_do (py_iter ts) first_open) of
                  Inl e \<Rightarrow> Inl e
                | Inr (Some slot) \<Rightarrow> Inr (Some slot)
                | Inr None \<Rightarrow> open_slot_in locations)
          else open_slot_in locations)"

definition open_slot_of :: "response \<Rightarrow> exn + json" where
  "open_slot_of resp =
     then_do (json_body resp) (\<lambda>j.
     then_do (py_get j ''Result'' (JObj [])) (\<lambda>result.
     then_do (py_get result ''PickupLocations'' (JArr [])) (\<lambda>locations.
     then_do (py_iter locations) (\<lambda>ls.
     then_do (open_slot_in ls) (\<lambda>found.
     Inr (case found of Some slot \<Rightarrow> slot | None \<Rightarrow> JNull))))))"

definition slot_values :: "json \<Rightarrow> exn + (json \<times> json)" where
  "slot_values open_slot =
     (if truthy open_slot
      then then_do (py_get open_slot ''Id'' JNull) (\<lambda>id_value.
           then_do (py_get open_slot ''Start'' JNull) (\<lambda>start_value.
           Inr (id_value, start_value)))
      else Inr (JNull, JNull))"

definition customer_id_of :: "response \<Rightarrow> exn + json" where
  "customer_id_of resp =
     then_do (json_body resp) (\<lambda>j.
     then_do (py_get j ''Result'' (JObj [])) (\<lambda>result.
     then_do (py_get result ''Recipient'' (JObj [])) (\<lambda>recipient.
     py_get recipient ''CustomerId'' (JObj []))))"

definition transaction_id_of :: "response \<Rightarrow> exn + json" where
  "transaction_id_of resp =
     then_do (json_body resp) (\<lambda>j. py_get j ''Result'' (JObj []))"

text \<open>The value of a hidden input: the \<open>value\<close> of the tag when it is found, else None.\<close>

definition input_value :: "string option \<Rightarrow> json" where
  "input_value found = (case found of Some v \<Rightarrow> JStr v | None \<Rightarrow> JNull)"

definition session_data_of ::
  "env \<Rightarrow> json \<Rightarrow> json \<Rightarrow> json \<Rightarrow> response \<Rightarrow> (string \<times> json) list" where
  "session_data_of E cart_id customer_id transaction_id resp =
     [(''user_agent'', JStr (user_agent E)),
      (''transaction_id'', transaction_id),
      (''viewstate'', input_value (viewstate_input resp)),
      (''viewstategenerator'', input_value (viewstategenerator_input resp)),
      (''eventvalidation'', input_value (eventvalidation_input resp)),
      (''cookies'', JObj (map (\<lambda>kv. (fst kv, JStr (snd kv))) (client_cookies E))),
      (''cart_id'', cart_id),
      (''customer_id'', customer_id)]"

text \<open>
  The body of the \<open>try\<close> of \<open>worldpay_auth\<close>, cut at the comments \<open># REQ n\<close>: \<open>req_n\<close> is
  the body from request \<open>n\<close> to its end, with the local variables set before as
  arguments.
\<close>

definition req9 :: "env \<Rightarrow> string \<times> string \<times> string \<times> string \<Rightarrow> world \<Rightarrow> unit flow \<times> world" where
  "req9 E cd =
     (case cd of (card_number, exp_month, exp_year, cvv) \<Rightarrow>
      andthen (\<lambda>w. request E 9
                 (emit (EvSubmit (card_fields_full card_number exp_month exp_year cvv)) w))
        (\<lambda>resp. case classify_full resp of
                  Inl e \<Rightarrow> compute (Inl e)
                | Inr result \<Rightarrow> return_pair result))"

definition req8 ::
  "env \<Rightarrow> string \<times> string \<times> string \<times> string \<Rightarrow> json \<Rightarrow> json \<Rightarrow> json \<Rightarrow> world \<Rightarrow> unit flow \<times> world" where
  "req8 E cd cart_id customer_id transaction_id =
     andthen (request E 8)
       (\<lambda>resp. andthen
          (perform (save_session E (StoreInt 1021)
                      (session_data_of E cart_id customer_id transaction_id resp)))
          (\<lambda>u. req9 E cd))"

definition req7 ::
  "env \<Rightarrow> string \<times> string \<times> string \<times> string \<Rightarrow> json \<Rightarrow> json \<Rightarrow> world \<Rightarrow> unit flow \<times> world" where
  "req7 E cd cart_id customer_id =
     andthen (request E 7)
       (\<lambda>resp. andthen (compute (transaction_id_of resp))
          (\<lambda>transaction_id. req8 E cd cart_id customer_id transaction_id))"

definition req6 ::
  "env \<Rightarrow> string \<times> string \<times> string \<times> string \<Rightarrow> json \<Rightarrow> json \<Rightarrow> world \<Rightarrow> unit flow \<times> world" where
  "req6 E cd cart_id customer_id =
     andthen (request E 6) (\<lambda>resp. req7 E cd cart_id customer_id)"

definition req5 ::
  "env \<Rightarrow> string \<times> string \<times> string \<times> string \<Rightarrow> json \<Rightarrow> world \<Rightarrow> unit flow \<times> world" where
  "req5 E cd cart_id =
     andthen (request E 5)
       (\<lambda>resp. andthen (compute (customer_id_of resp))
          (\<lambda>customer_id.
             if customer_id = JNull then return_pair (''error'', ''CustomerId not found'')
             else req6 E cd cart_id customer_id))"

definition req4 ::
  "env \<Rightarrow> string \<times> string \<times> string \<times> string \<Rightarrow> json \<Rightarrow> world \<Rightarrow> unit flow \<times> world" where
  "req4 E cd cart_id =
     andthen (request E 4) (\<lambda>resp. req5 E cd cart_id)"

definition req3 ::
  "env \<Rightarrow> string \<times> string \<times> string \<times> string \<Rightarrow> json \<Rightarrow> world \<Rightarrow> unit flow \<times> world" where
  "req3 E cd cart_id =
     andthen (request E 3)
       (\<lambda>resp. andthen (compute (then_do (open_slot_of resp) slot_values))
          (\<lambda>vals.
             if \<not> truthy (fst vals) \<or> \<not> truthy (snd vals)
             then return_pair (''error'', ''No open timeslots available'')
             else req4 E cd cart_id))"

definition req2 ::
  "env \<Rightarrow> string \<times> string \<times> string \<times> string \<Rightarrow> json \<Rightarrow> world \<Rightarrow> unit flow \<times> world" where
  "req2 E cd cart_id =
     andthen (request E 2) (\<lambda>resp. req3 E cd cart_id)"

definition req1 :: "env \<Rightarrow> string \<times> string \<times> string \<times> string \<Rightarrow> world \<Rightarrow> unit flow \<times> world" where
  "req1 E cd =
     andthen (request E 1)
       (\<lambda>resp. andthen (compute (cart_id_of resp)) (\<lambda>cart_id. req2 E cd cart_id))"

text \<open>
  The handler of the \<open>try\<close> of \<open>worldpay_auth\<close>: a return of the body is the return of
  the function, and an exception becomes the pair of \<open>"error"\<close> and the text of the
  exception. A body that ran off its end would make the function return None.
\<close>

definition except_handler ::
  "unit flow \<times> world \<Rightarrow> (exn + (string \<times> string) option) \<times> world" where
  "except_handler out =
     (case out of
        (Return r, w1) \<Rightarrow> (Inr (Some r), w1)
      | (Raise e, w1) \<Rightarrow> (Inr (Some (''error'', str_exn e)), w1)
      | (Next u, w1) \<Rightarrow> (Inr None, w1))"

text \<open>
  \<open>worldpay_auth\<close>. The statements ahead of the \<open>try\<close> make up the browser identity, the
  fake customer and the HTTP client from constants, and are taken to succeed.
\<close>

definition worldpay_auth ::
  "env \<Rightarrow> string \<times> string \<times> string \<times> string \<Rightarrow> world \<Rightarrow> (exn + (string \<times> string) option) \<times> world" where
  "worldpay_auth E cd w = except_handler (req1 E cd (emit EvFull w))"


definition deciding_attempt :: "env \<Rightarrow> nat \<Rightarrow> attempt" where
  "deciding_attempt E n =
     (if \<not> retried (net E n) then net E n
      else if \<not> retried (net E (n + 1)) then net E (n + 1)
      else net E (n + 2))"

definition happened :: "event \<Rightarrow> world \<Rightarrow> nat" where
  "happened ev w = count_list (trace w) ev"

section \<open>worldpay_auth_with_cache\<close>

text \<open>
  A result of \<open>verify_card_with_cached_session\<close> is None or a pair, and a pair is true
  in \<open>if result\<close>.
\<close>

definition worldpay_auth_with_cache ::
  "env \<Rightarrow> string \<Rightarrow> bool \<Rightarrow> world \<Rightarrow> (exn + (string \<times> string) option) \<times> world" where
  "worldpay_auth_with_cache E cc use_cache w =
     (case parse_card cc of
        Inl e \<Rightarrow> (Inl e, w)
      | Inr cd \<Rightarrow>
          (case (if use_cache then get_session E (StoreInt 1021) (new_SessionCache w)
                 else (Inr JNull, new_SessionCache w)) of
             (Inl e, w1) \<Rightarrow> (Inl e, w1)
           | (Inr cached_session, w1) \<Rightarrow>
               if truthy cached_session
               then (case verify_card_with_cached_session E cd cached_session w1 of
                       (Inl e, w2) \<Rightarrow> (Inl e, w2)
                     | (Inr (Some result), w2) \<Rightarrow> (Inr (Some result), w2)
                     | (Inr None, w2) \<Rightarrow> worldpay_auth E cd w2)
               else worldpay_auth E cd w1))"

section \<open>The endpoint /check\<close>

text \<open>
  The three JSON responses of \<open>check_card\<close>, one per \<open>return\<close>: the card was checked
  (success true, HTTP 200), the result was false (success false, HTTP 500, "Failed to
  process card"), and an exception was caught (success false, HTTP 500, the text of the
  exception). Each carries the card as given and the time as an integer.
\<close>

datatype reply =
    Checked string string string int
  | NotProcessed string int
  | Crashed string string int

fun reply_status_code :: "reply \<Rightarrow> int" where
  "reply_status_code (Checked cc status message t) = 200"
| "reply_status_code (NotProcessed cc t) = 500"
| "reply_status_code (Crashed cc message t) = 500"

fun reply_success :: "reply \<Rightarrow> bool" where
  "reply_success (Checked cc status message t) = True"
| "reply_success (NotProcessed cc t) = False"
| "reply_success (Crashed cc message t) = False"

fun reply_status :: "reply \<Rightarrow> string" where
  "reply_status (Checked cc status message t) = status"
| "reply_status (NotProcessed cc t) = ''ERROR''"
| "reply_status (Crashed cc message t) = ''ERROR''"

fun reply_message :: "reply \<Rightarrow> string" where
  "reply_message (Checked cc status message t) = message"
| "reply_message (NotProcessed cc t) = ''Failed to process card''"
| "reply_message (Crashed cc message t) = message"

text \<open>\<open>int(time.time())\<close>: the float cut towards zero.\<close>

definition int_of_float :: "real \<Rightarrow> int" where
  "int_of_float r = (if 0 \<le> r then \<lfloor>r\<rfloor> else \<lceil>r\<rceil>)"

definition invalid_format_detail :: string where
  "invalid_format_detail = ''Invalid card format. Use: card_number|exp_month|exp_year|cvv''"

text \<open>The body of the \<open>try\<close> of \<open>check_card\<close>.\<close>

definition check_card_try :: "env \<Rightarrow> string \<Rightarrow> world \<Rightarrow> (exn + reply) \<times> world" where
  "check_card_try E cc w =
     (if cc = [] \<or> \<not> contains ''|'' cc then (Inl (HTTPException 400 invalid_format_detail), w)
      else case worldpay_auth_with_cache E cc True w of
             (Inl e, w1) \<Rightarrow> (Inl e, w1)
           | (Inr result, w1) \<Rightarrow>
               (case (if result = None
                      then worldpay_auth_with_cache E cc False (emit EvRetryFull w1)
                      else (Inr result, w1)) of
                  (Inl e, w2) \<Rightarrow> (Inl e, w2)
                | (Inr (Some (status, message)), w2) \<Rightarrow>
                    (let (now, w3) = time_time E w2
                     in (Inr (Checked cc (upper status) message (int_of_float now)), w3))
                | (Inr None, w2) \<Rightarrow>
                    (let (now, w3) = time_time E w2
                     in (Inr (NotProcessed cc (int_of_float now)), w3))))"

text \<open>
  \<open>check_card\<close>: the handlers in their order. A ValueError is raised again as an
  HTTPException with status 400; every other exception, an HTTPException raised in the
  body among them, is answered with the JSON response of status 500.
\<close>

definition check_card :: "env \<Rightarrow> string \<Rightarrow> world \<Rightarrow> (exn + reply) \<times> world" where
  "check_card E cc w =
     (case check_card_try E cc w of
        (Inr r, w1) \<Rightarrow> (Inr r, w1)
      | (Inl (ValueError m), w1) \<Rightarrow> (Inl (HTTPException 400 m), w1)
      | (Inl e, w1) \<Rightarrow>
          (let (now, w2) = time_time E w1
           in (Inr (Crashed cc (str_exn e) (int_of_float now)), w2)))"

text \<open>
  The status code the client sees: that of the JSON response, or that of the
  HTTPException the framework answers for; any other exception is a 500.
\<close>

fun http_status :: "exn + reply \<Rightarrow> int" where
  "http_status (Inr r) = reply_status_code r"
| "http_status (Inl (HTTPException c d)) = c"
| "http_status (Inl e) = 500"

section \<open>Sample inputs\<close>

definition offline_env :: env where
  "offline_env =
     \<lparr> net = (\<lambda>n. Raises (ConnectError ''All connection attempts failed'')),
       clock = (\<lambda>n. 1756267583), cache_write = WriteOk,
       user_agent = ''Mozilla/5.0'', client_cookies = [] \<rparr>"

definition start_world :: "cache_file \<Rightarrow> world" where
  "start_world f = \<lparr> net_calls = 0, clock_reads = 0, disk = f, sessions = JObj [], trace = [] \<rparr>"

section \<open>Words for the statements about the flows\<close>

text \<open>
  The actions that only \<open>worldpay_auth\<close> and \<open>check_card\<close> themselves announce; a
  (status, message) pair whose status is one of the three words; a statement that
  returns only such pairs; a body that ends only by returning such a pair or by raising;
  and a step that leaves the count of an action as it is.
\<close>

definition outer :: "event \<Rightarrow> bool" where
  "outer ev = (ev = EvFull \<or> ev = EvRetryFull)"

definition status_ok :: "string \<times> string \<Rightarrow> bool" where
  "status_ok r = (fst r = ''approved'' \<or> fst r = ''declined'' \<or> fst r = ''error'')"

definition returns_ok :: "'a flow \<times> world \<Rightarrow> bool" where
  "returns_ok out = (case fst out of Return r \<Rightarrow> status_ok r | Raise e \<Rightarrow> True | Next a \<Rightarrow> True)"

definition ends_ok :: "'a flow \<times> world \<Rightarrow> bool" where
  "ends_ok out = (case fst out of Return r \<Rightarrow> status_ok r | Raise e \<Rightarrow> True | Next a \<Rightarrow> False)"

definition keeps :: "event \<Rightarrow> (world \<Rightarrow> 'a \<times> world) \<Rightarrow> bool" where
  "keeps ev m = (\<forall>w. happened ev (snd (m w)) = happened ev w)"



definition saved_session :: json where
  "saved_session =
     JObj [(''user_agent'', JStr ''Mozilla/5.0''), (''transaction_id'', JStr ''T1''),
           (''viewstate'', JStr ''v''), (''viewstategenerator'', JStr ''g''),
           (''eventvalidation'', JStr ''e''), (''cookies'', JObj []),
           (''cart_id'', JStr ''C1''), (''customer_id'', JInt 7),
           (''timestamp'', JFloat 1756267000)]"

section \<open>Digit runs: proofs\<close>













section \<open>Card fields: proofs\<close>







section \<open>Classification: proofs\<close>

lemma starts_with_iff: "starts_with sub s \<longleftrightarrow> (\<exists>q. s = sub @ q)"
  unfolding starts_with_def
  by (metis append_eq_conv_conj append_take_drop_id)

lemma contains_iff: "contains sub s \<longleftrightarrow> occurs sub s"
proof (induction s)
  case Nil
  show ?case by (auto simp: occurs_def)
next
  case (Cons c cs)
  show ?case
  proof
    assume "contains sub (c # cs)"
    then consider "starts_with sub (c # cs)" | "occurs sub cs" using Cons by auto
    then show "occurs sub (c # cs)"
    proof cases
      case 1
      then obtain q where "c # cs = [] @ sub @ q" by (auto simp: starts_with_iff)
      then show ?thesis unfolding occurs_def by blast
    next
      case 2
      then obtain p q where "cs = p @ sub @ q" by (auto simp: occurs_def)
      then have "c # cs = (c # p) @ sub @ q" by simp
      then show ?thesis unfolding occurs_def by blast
    qed
  next
    assume "occurs sub (c # cs)"
    then obtain p q where pq: "c # cs = p @ sub @ q" by (auto simp: occurs_def)
    show "contains sub (c # cs)"
    proof (cases p)
      case Nil
      with pq have "starts_with sub (c # cs)" by (auto simp: starts_with_iff)
      then show ?thesis by simp
    next
      case (Cons a p')
      with pq have "cs = p' @ sub @ q" by simp
      then have "occurs sub cs" unfolding occurs_def by blast
      then show ?thesis using Cons.IH by simp
    qed
  qed
qed

lemma split_once_first:
  "occurs sep s \<Longrightarrow>
   \<exists>pre post. split_once sep acc s = [acc @ pre, post] \<and> s = pre @ sep @ post \<and>
     (\<forall>p q. s = p @ sep @ q \<longrightarrow> length pre \<le> length p)"
proof (induction s arbitrary: acc)
  case Nil
  then have "sep = []" by (auto simp: occurs_def)
  then show ?case by (simp add: starts_with_def)
next
  case (Cons c cs)
  show ?case
  proof (cases "starts_with sep (c # cs)")
    case True
    then obtain q where q: "c # cs = sep @ q" by (auto simp: starts_with_iff)
    then have "split_once sep acc (c # cs) = [acc @ [], q] \<and> c # cs = [] @ sep @ q \<and>
       (\<forall>p q'. c # cs = p @ sep @ q' \<longrightarrow> length ([]::string) \<le> length p)"
      using True by (metis split_once.simps(2) append_Nil append_Nil2 append_eq_conv_conj list.size(3) zero_le)
    then show ?thesis by blast
  next
    case False
    have tail: "\<And>p q. c # cs = p @ sep @ q \<Longrightarrow> \<exists>p'. p = c # p' \<and> cs = p' @ sep @ q"
    proof -
      fix p q assume e: "c # cs = p @ sep @ q"
      show "\<exists>p'. p = c # p' \<and> cs = p' @ sep @ q"
      proof (cases p)
        case Nil
        with e False show ?thesis by (auto simp: starts_with_iff)
      next
        case (Cons a p')
        with e show ?thesis by simp
      qed
    qed
    from Cons.prems obtain p0 q0 where "c # cs = p0 @ sep @ q0" by (auto simp: occurs_def)
    with tail have "occurs sep cs" unfolding occurs_def by blast
    from Cons.IH [OF this, of "acc @ [c]"] obtain pre post where
      ih: "split_once sep (acc @ [c]) cs = [(acc @ [c]) @ pre, post]" "cs = pre @ sep @ post"
          "\<forall>p q. cs = p @ sep @ q \<longrightarrow> length pre \<le> length p" by blast
    have "split_once sep acc (c # cs) = [acc @ (c # pre), post] \<and> c # cs = (c # pre) @ sep @ post \<and>
       (\<forall>p q. c # cs = p @ sep @ q \<longrightarrow> length (c # pre) \<le> length p)"
    proof (intro conjI allI impI)
      show "split_once sep acc (c # cs) = [acc @ (c # pre), post]" using False ih(1) by simp
      show "c # cs = (c # pre) @ sep @ post" using ih(2) by simp
      fix p q assume "c # cs = p @ sep @ q"
      with tail obtain p' where "p = c # p'" "cs = p' @ sep @ q" by blast
      with ih(3) show "length (c # pre) \<le> length p" by auto
    qed
    then show ?thesis by blast
  qed
qed

lemma error_message_of_spec:
  "\<exists>msg. error_message_of t = Inr msg \<and>
     (if occurs '': '' t then stripped_to_first '': '' t msg else msg = t)"
proof (cases "occurs '': '' t")
  case True
  from split_once_first [OF True, of "[]"] obtain pre post where
    sp: "split_once '': '' [] t = [pre, post]" "t = pre @ '': '' @ post"
        "\<forall>p q. t = p @ '': '' @ q \<longrightarrow> length pre \<le> length p" by auto
  have "error_message_of t = Inr post"
    using True sp(1) by (simp add: error_message_of_def contains_iff split1_def item1_def)
  moreover have "stripped_to_first '': '' t post"
    unfolding stripped_to_first_def using sp(2,3) by blast
  ultimately show ?thesis using True by simp
next
  case False
  then show ?thesis by (simp add: error_message_of_def contains_iff)
qed



section \<open>The retry wrapper: proofs\<close>

lemma session_method_eq:
  "session_method E w =
     (outcome (net E (net_calls w)),
      w\<lparr>net_calls := Suc (net_calls w), trace := trace w @ [EvCall]\<rparr>)"
  by (simp add: session_method_def outcome_def emit_def Let_def split: attempt.splits)

text \<open>
  C2. A wrapped network call invokes the underlying function at most three times. It
  ends with the outcome of the first invocation that does not raise one of the listed
  exceptions; between two consecutive invocations it sleeps the same delay of one
  second; and when the third invocation fails too, its exception is raised.
\<close>

theorem request_with_retry_three_attempts:
  "request_with_retry E w =
     (if \<not> retried (net E (net_calls w))
      then (outcome (net E (net_calls w)),
            w\<lparr>net_calls := net_calls w + 1, trace := trace w @ [EvCall]\<rparr>)
      else if \<not> retried (net E (net_calls w + 1))
      then (outcome (net E (net_calls w + 1)),
            w\<lparr>net_calls := net_calls w + 2, trace := trace w @ [EvCall, EvSleep 1, EvCall]\<rparr>)
      else (outcome (net E (net_calls w + 2)),
            w\<lparr>net_calls := net_calls w + 3,
              trace := trace w @ [EvCall, EvSleep 1, EvCall, EvSleep 1, EvCall]\<rparr>))"
proof -
  have r: "[1 ..< 3 + 1] = [1, 2, 3::nat]" by (simp add: upt_rec)
  show ?thesis
    unfolding request_with_retry_def retry_request_def r
    by (cases "net E (net_calls w)"; cases "net E (net_calls w + 1)";
        cases "net E (net_calls w + 2)")
       (simp_all add: session_method_eq emit_def retried_def outcome_def)
qed

theorem request_with_retry_three_attempts_witness:
  "request_with_retry
     \<lparr> net = (\<lambda>n. Raises (if n < 2 then TimeoutException ''slow'' else ConnectError ''down'')),
       clock = (\<lambda>n. 0), cache_write = WriteOk, user_agent = ''ua'', client_cookies = [] \<rparr>
     \<lparr> net_calls = 0, clock_reads = 0, disk = NoFile, sessions = JObj [], trace = [] \<rparr> =
   (Inl (ConnectError ''down''),
    \<lparr> net_calls = 3, clock_reads = 0, disk = NoFile, sessions = JObj [],
      trace = [EvCall, EvSleep 1, EvCall, EvSleep 1, EvCall] \<rparr>)"
  using request_with_retry_three_attempts
    [of "\<lparr> net = (\<lambda>n. Raises (if n < 2 then TimeoutException ''slow'' else ConnectError ''down'')),
            clock = (\<lambda>n. 0), cache_write = WriteOk, user_agent = ''ua'', client_cookies = [] \<rparr>"
        "\<lparr> net_calls = 0, clock_reads = 0, disk = NoFile, sessions = JObj [], trace = [] \<rparr>"]
  by (simp add: retried_def outcome_def)

section \<open>SessionCache: proofs\<close>

text \<open>
  C1. With the in-memory cache a dict: when it has no entry for the store key,
  \<open>get_session\<close> returns None; when it has a session record saved at \<open>ts\<close>, the record is
  returned if and only if the current time less \<open>ts\<close> is strictly below 1800 seconds,
  and otherwise the entry is deleted from the in-memory cache and None is returned.
\<close>

theorem get_session_fresh_or_expired:
  assumes "sessions w = JObj kvs"
  shows "(map_of kvs (str_store store) = None \<longrightarrow> get_session E store w = (Inr JNull, w)) \<and>
   (\<forall>s ts. map_of kvs (str_store store) = Some (JObj s) \<and>
            map_of s ''timestamp'' = Some (JFloat ts) \<longrightarrow>
      get_session E store w =
        (if clock E (clock_reads w) - ts < 1800
         then (Inr (JObj s), w\<lparr>clock_reads := Suc (clock_reads w)\<rparr>)
         else (Inr JNull,
               w\<lparr>clock_reads := Suc (clock_reads w),
                 sessions := JObj (AList.delete (str_store store) kvs)\<rparr>)))"
  using assms
  by (auto simp: get_session_def time_time_def then_do_def Let_def)

theorem get_session_fresh_or_expired_witness:
  "get_session offline_env (StoreStr ''1021'')
     ((start_world NoFile)
        \<lparr>sessions := JObj [(''1021'', JObj [(''timestamp'', JFloat 1756265783)])]\<rparr>) =
   (Inr JNull, (start_world NoFile)\<lparr>clock_reads := 1, sessions := JObj []\<rparr>)"
proof -
  let ?kvs = "[(''1021'', JObj [(''timestamp'', JFloat 1756265783)])]"
  let ?w = "(start_world NoFile)\<lparr>sessions := JObj ?kvs\<rparr>"
  have s: "sessions ?w = JObj ?kvs" by simp
  show ?thesis
    using get_session_fresh_or_expired [OF s, of "StoreStr ''1021''" offline_env]
    by (simp add: offline_env_def start_world_def)
qed




section \<open>Requests: proofs\<close>

lemma happened_emit: "happened ev (emit ev' w) = happened ev w + (if ev' = ev then 1 else 0)"
  by (simp add: happened_def emit_def)

lemma emit_net_calls: "net_calls (emit ev w) = net_calls w"
  by (simp add: emit_def)

lemma retry_loop_times:
  "outer ev \<Longrightarrow>
   happened ev (snd (retry_loop retry attempts delay (session_method E) xs le w)) = happened ev w"
proof (induction xs arbitrary: le w)
  case Nil
  then show ?case by simp
next
  case (Cons a xs)
  have sm: "\<And>w. happened ev (snd (session_method E w)) = happened ev w"
    using Cons.prems by (auto simp: session_method_eq happened_def outer_def)
  show ?case
  proof (cases "session_method E w")
    case (Pair r w1)
    with sm [of w] have t1: "happened ev w1 = happened ev w" by simp
    show ?thesis
    proof (cases r)
      case (Inr v)
      with Pair t1 show ?thesis by simp
    next
      case (Inl e)
      have "happened ev (if a < attempts then emit (EvSleep delay) w1 else w1) = happened ev w"
        using t1 Cons.prems by (auto simp: happened_emit outer_def)
      with Pair Inl Cons.IH [OF Cons.prems] t1 show ?thesis by simp
    qed
  qed
qed

lemma request_with_retry_times:
  "outer ev \<Longrightarrow> happened ev (snd (request_with_retry E w)) = happened ev w"
  by (simp add: request_with_retry_def retry_request_def retry_loop_times)

lemma request_with_retry_decided:
  "fst (request_with_retry E w) = outcome (deciding_attempt E (net_calls w))"
proof -
  have r: "[1 ..< 3 + 1] = [1, 2, 3::nat]" by (simp add: upt_rec)
  show ?thesis
    unfolding request_with_retry_def retry_request_def r deciding_attempt_def
    by (cases "net E (net_calls w)"; cases "net E (net_calls w + 1)";
        cases "net E (net_calls w + 2)")
       (simp_all add: session_method_eq emit_def retried_def outcome_def)
qed


lemma request_eq:
  "request E k w =
     (case request_with_retry E w of
        (Inl e, w1) \<Rightarrow> (Raise e, w1)
      | (Inr resp, w1) \<Rightarrow>
          if status_code resp \<noteq> 200
          then (Return (''error'', ''Request '' @ str_nat k @ '' failed''), w1)
          else (Next resp, w1))"
  by (simp add: request_def andthen_def perform_def return_pair_def compute_def
      split: prod.splits sum.splits)




section \<open>worldpay_auth returns a pair: proofs\<close>

lemma ends_ok_andthen:
  "returns_ok (m w) \<Longrightarrow> (\<And>a w1. ends_ok (f a w1)) \<Longrightarrow> ends_ok (andthen m f w)"
  by (cases "m w"; cases "fst (m w)")
     (auto simp: andthen_def returns_ok_def ends_ok_def split: flow.splits)

lemma returns_ok_request: "returns_ok (request E k w)"
  by (simp add: request_eq returns_ok_def status_ok_def split: prod.splits sum.splits)

lemma returns_ok_compute: "returns_ok (compute r w)"
  by (simp add: compute_def returns_ok_def split: sum.splits)

lemma returns_ok_perform: "returns_ok (perform m w)"
  by (simp add: perform_def returns_ok_def split: prod.splits sum.splits)

lemma ends_ok_return_error: "ends_ok (return_pair (''error'', m) w)"
  by (simp add: return_pair_def ends_ok_def status_ok_def)

lemma classify_full_status: "classify_full resp = Inr r \<Longrightarrow> status_ok r"
  by (auto simp: classify_full_def status_ok_def split: option.splits sum.splits if_splits)

lemma ends_ok_req9: "ends_ok (req9 E cd w)"
proof -
  obtain a b c e where cd: "cd = (a, b, c, e)" by (cases cd)
  have "\<And>resp w1. ends_ok ((case classify_full resp of
                  Inl e \<Rightarrow> compute (Inl e)
                | Inr result \<Rightarrow> return_pair result) w1)"
    using classify_full_status
    by (auto simp: ends_ok_def compute_def return_pair_def split: sum.splits)
  then show ?thesis
    unfolding req9_def cd prod.case
    by (intro ends_ok_andthen returns_ok_request)
qed

lemma ends_ok_req8: "ends_ok (req8 E cd c1 c2 c3 w)"
  unfolding req8_def
  by (intro ends_ok_andthen returns_ok_request returns_ok_perform ends_ok_req9)

lemma ends_ok_req7: "ends_ok (req7 E cd c1 c2 w)"
  unfolding req7_def
  by (intro ends_ok_andthen returns_ok_request returns_ok_compute ends_ok_req8)

lemma ends_ok_req6: "ends_ok (req6 E cd c1 c2 w)"
  unfolding req6_def
  by (intro ends_ok_andthen returns_ok_request ends_ok_req7)

lemma ends_ok_req5: "ends_ok (req5 E cd c1 w)"
  unfolding req5_def
  by (intro ends_ok_andthen returns_ok_request returns_ok_compute)
     (simp add: ends_ok_return_error ends_ok_req6)

lemma ends_ok_req4: "ends_ok (req4 E cd c1 w)"
  unfolding req4_def
  by (intro ends_ok_andthen returns_ok_request ends_ok_req5)

lemma ends_ok_req3: "ends_ok (req3 E cd c1 w)"
  unfolding req3_def
  by (intro ends_ok_andthen returns_ok_request returns_ok_compute)
     (simp add: ends_ok_return_error ends_ok_req4)

lemma ends_ok_req2: "ends_ok (req2 E cd c1 w)"
  unfolding req2_def
  by (intro ends_ok_andthen returns_ok_request ends_ok_req3)

lemma ends_ok_req1: "ends_ok (req1 E cd w)"
  unfolding req1_def
  by (intro ends_ok_andthen returns_ok_request returns_ok_compute ends_ok_req2)

lemma except_handler_pair:
  "ends_ok out \<Longrightarrow> \<exists>r. fst (except_handler out) = Inr (Some r) \<and> status_ok r"
  by (cases out; cases "fst out")
     (auto simp: except_handler_def ends_ok_def status_ok_def)

lemma worldpay_auth_pair:
  "\<exists>r. fst (worldpay_auth E cd w) = Inr (Some r) \<and> status_ok r"
  unfolding worldpay_auth_def by (rule except_handler_pair) (rule ends_ok_req1)



section \<open>Counting actions: proofs\<close>

lemma keeps_andthen:
  assumes "keeps ev m" "\<And>a. keeps ev (f a)"
  shows "keeps ev (andthen m f)"
  unfolding keeps_def
proof
  fix w
  obtain r w1 where p: "m w = (r, w1)" by (cases "m w")
  with assms(1) have t: "happened ev w1 = happened ev w" by (metis keeps_def snd_conv)
  show "happened ev (snd (andthen m f w)) = happened ev w"
  proof (cases r)
    case (Next a)
    with p t assms(2) [of a] show ?thesis by (simp add: andthen_def keeps_def)
  next
    case (Return x)
    with p t show ?thesis by (simp add: andthen_def)
  next
    case (Raise e)
    with p t show ?thesis by (simp add: andthen_def)
  qed
qed

lemma keeps_request: "outer ev \<Longrightarrow> keeps ev (request E k)"
  unfolding keeps_def
proof
  fix w
  assume o: "outer ev"
  obtain r w1 where p: "request_with_retry E w = (r, w1)" by (cases "request_with_retry E w")
  with request_with_retry_times [OF o, of E w] have "happened ev w1 = happened ev w" by simp
  with p show "happened ev (snd (request E k w)) = happened ev w"
    by (simp add: request_eq split: sum.splits)
qed

lemma keeps_compute: "keeps ev (compute r)"
  by (simp add: keeps_def compute_def split: sum.splits)

lemma keeps_return_pair: "keeps ev (return_pair r)"
  by (simp add: keeps_def return_pair_def)

lemma keeps_perform: "keeps ev m \<Longrightarrow> keeps ev (perform m)"
  by (auto simp: keeps_def perform_def split: prod.splits sum.splits)
     (metis snd_conv)+

lemma save_session_trace: "trace (snd (save_session E store d w)) = trace w"
  by (simp add: save_session_def save_cache_def save_cache_try_def time_time_def Let_def
      split: sum.splits write_outcome.splits)

lemma keeps_save_session: "keeps ev (save_session E store d)"
  by (simp add: keeps_def happened_def save_session_trace)

lemma get_session_trace: "trace (snd (get_session E store w)) = trace w"
  by (simp add: get_session_def time_time_def Let_def split: sum.splits bool.splits)

lemma new_SessionCache_trace: "trace (new_SessionCache w) = trace w"
  by (simp add: new_SessionCache_def load_cache_def split: sum.splits)

lemma keeps_req9: "outer ev \<Longrightarrow> keeps ev (req9 E cd)"
proof -
  assume o: "outer ev"
  obtain a b c e where cd: "cd = (a, b, c, e)" by (cases cd)
  have "keeps ev (\<lambda>w. request E 9 (emit (EvSubmit (card_fields_full a b c e)) w))"
    using keeps_request [OF o, of E 9] o
    by (auto simp: keeps_def happened_emit outer_def)
  moreover have "\<And>resp. keeps ev (case classify_full resp of
                  Inl e \<Rightarrow> compute (Inl e)
                | Inr result \<Rightarrow> return_pair result)"
    by (simp add: keeps_compute keeps_return_pair split: sum.splits)
  ultimately show ?thesis
    unfolding req9_def cd prod.case by (rule keeps_andthen)
qed

lemma keeps_req8: "outer ev \<Longrightarrow> keeps ev (req8 E cd c1 c2 c3)"
  unfolding req8_def
  by (intro keeps_andthen keeps_request keeps_perform keeps_save_session keeps_req9)

lemma keeps_req7: "outer ev \<Longrightarrow> keeps ev (req7 E cd c1 c2)"
  unfolding req7_def
  by (intro keeps_andthen keeps_request keeps_compute keeps_req8)

lemma keeps_req6: "outer ev \<Longrightarrow> keeps ev (req6 E cd c1 c2)"
  unfolding req6_def
  by (intro keeps_andthen keeps_request keeps_req7)

lemma keeps_req5: "outer ev \<Longrightarrow> keeps ev (req5 E cd c1)"
  unfolding req5_def
  by (intro keeps_andthen keeps_request keeps_compute)
     (simp_all add: keeps_return_pair keeps_req6)

lemma keeps_req4: "outer ev \<Longrightarrow> keeps ev (req4 E cd c1)"
  unfolding req4_def
  by (intro keeps_andthen keeps_request keeps_req5)

lemma keeps_req3: "outer ev \<Longrightarrow> keeps ev (req3 E cd c1)"
  unfolding req3_def
  by (intro keeps_andthen keeps_request keeps_compute)
     (simp_all add: keeps_return_pair keeps_req4)

lemma keeps_req2: "outer ev \<Longrightarrow> keeps ev (req2 E cd c1)"
  unfolding req2_def
  by (intro keeps_andthen keeps_request keeps_req3)

lemma keeps_req1: "outer ev \<Longrightarrow> keeps ev (req1 E cd)"
  unfolding req1_def
  by (intro keeps_andthen keeps_request keeps_compute keeps_req2)

lemma except_handler_snd: "snd (except_handler out) = snd out"
  by (cases out; cases "fst out") (simp_all add: except_handler_def)

lemma worldpay_auth_times:
  "outer ev \<Longrightarrow>
   happened ev (snd (worldpay_auth E cd w)) = happened ev w + (if ev = EvFull then 1 else 0)"
  using keeps_req1 [of ev E cd]
  by (simp add: worldpay_auth_def except_handler_snd keeps_def happened_emit)

lemma verify_times:
  "outer ev \<Longrightarrow> happened ev (snd (verify_card_with_cached_session E cd cs w)) = happened ev w"
proof -
  assume o: "outer ev"
  obtain a b c e where cd: "cd = (a, b, c, e)" by (cases cd)
  let ?w = "emit (EvSubmit (card_fields_cached a b c e)) (emit EvQuick w)"
  have t: "happened ev (snd (request_with_retry E ?w)) = happened ev w"
    using request_with_retry_times [OF o, of E ?w] o by (auto simp: happened_emit outer_def)
  obtain r w1 where p: "request_with_retry E ?w = (r, w1)" by (cases "request_with_retry E ?w")
  with t have "happened ev w1 = happened ev w" by simp
  with p show ?thesis
    by (simp add: verify_card_with_cached_session_def cd split: sum.splits)
qed

section \<open>worldpay_auth_with_cache: proofs\<close>

lemma worldpay_auth_not_None: "fst (worldpay_auth E cd w) \<noteq> Inr None"
  using worldpay_auth_pair [of E cd w] by auto

lemma worldpay_auth_not_Inl: "fst (worldpay_auth E cd w) \<noteq> Inl e"
  using worldpay_auth_pair [of E cd w] by auto

lemma with_cache_not_None: "fst (worldpay_auth_with_cache E cc use_cache w) \<noteq> Inr None"
  using worldpay_auth_not_None
  by (auto simp: worldpay_auth_with_cache_def split: sum.splits prod.splits option.splits)

lemma with_cache_times:
  "happened EvRetryFull (snd (worldpay_auth_with_cache E cc use_cache w)) = happened EvRetryFull w"
proof (cases "parse_card cc")
  case (Inl e)
  then show ?thesis by (simp add: worldpay_auth_with_cache_def)
next
  case (Inr cd)
  have o: "outer EvRetryFull" by (simp add: outer_def)
  let ?g = "if use_cache then get_session E (StoreInt 1021) (new_SessionCache w)
            else (Inr JNull, new_SessionCache w)"
  obtain r w1 where g: "?g = (r, w1)" by (cases ?g)
  have t1: "happened EvRetryFull w1 = happened EvRetryFull w"
  proof -
    have "trace (snd ?g) = trace w"
      by (simp add: get_session_trace new_SessionCache_trace)
    with g show ?thesis by (simp add: happened_def)
  qed
  show ?thesis
  proof (cases r)
    case (Inl e)
    with Inr g t1 show ?thesis by (simp add: worldpay_auth_with_cache_def)
  next
    case cs: (Inr cached_session)
    show ?thesis
    proof (cases "truthy cached_session")
      case False
      with Inr g cs t1 worldpay_auth_times [OF o, of E cd w1] show ?thesis
        by (simp add: worldpay_auth_with_cache_def)
    next
      case True
      obtain v w2 where v: "verify_card_with_cached_session E cd cached_session w1 = (v, w2)"
        by (cases "verify_card_with_cached_session E cd cached_session w1")
      with verify_times [OF o, of E cd cached_session w1] t1
      have t2: "happened EvRetryFull w2 = happened EvRetryFull w" by simp
      with Inr g cs True v worldpay_auth_times [OF o, of E cd w2] show ?thesis
        by (simp add: worldpay_auth_with_cache_def split: sum.splits option.splits)
    qed
  qed
qed

lemma error_message_of_Inr: "\<exists>msg. error_message_of t = Inr msg"
  using error_message_of_spec [of t] by blast

lemma classify_cached_Inr: "\<exists>r. classify_cached resp = Inr r"
proof (cases "error_span resp")
  case None
  then show ?thesis by (simp add: classify_cached_def)
next
  case (Some t)
  with error_message_of_Inr [of t] show ?thesis by (auto simp: classify_cached_def)
qed

lemma verify_None_iff:
  assumes "cached_session_fields cs = Inr cookies"
  shows "(fst (verify_card_with_cached_session E cd cs w) = Inr None) =
         (\<forall>resp. deciding_attempt E (net_calls w) = Responds resp \<longrightarrow> status_code resp \<noteq> 200)"
proof -
  obtain a b c e where cd: "cd = (a, b, c, e)" by (cases cd)
  let ?w = "emit (EvSubmit (card_fields_cached a b c e)) (emit EvQuick w)"
  obtain r w1 where p: "request_with_retry E ?w = (r, w1)" by (cases "request_with_retry E ?w")
  with request_with_retry_decided [of E ?w]
  have r: "r = outcome (deciding_attempt E (net_calls w))" by (simp add: emit_net_calls)
  show ?thesis
  proof (cases "deciding_attempt E (net_calls w)")
    case (Raises x)
    with r p assms show ?thesis
      by (simp add: verify_card_with_cached_session_def cd outcome_def)
  next
    case (Responds resp)
    with r p assms classify_cached_Inr [of resp] show ?thesis
      by (auto simp: verify_card_with_cached_session_def cd outcome_def)
  qed
qed

text \<open>
  C5. With caching enabled and a cached session at hand: when the quick verification
  yields None, \<open>worldpay_auth_with_cache\<close> returns what the full flow returns and the full
  flow has run exactly once; when it yields a result, that result is returned and the
  full flow has not run. With the fields of the cached session in place, the quick
  verification yields None exactly when its call raises or answers with a status other
  than 200.
\<close>

theorem cached_failure_falls_back_once:
  assumes "parse_card cc = Inr cd"
    and "get_session E (StoreInt 1021) (new_SessionCache w) = (Inr cached_session, w1)"
    and "truthy cached_session"
  shows "(\<forall>w2. verify_card_with_cached_session E cd cached_session w1 = (Inr None, w2) \<longrightarrow>
            worldpay_auth_with_cache E cc True w = worldpay_auth E cd w2 \<and>
            happened EvFull (snd (worldpay_auth_with_cache E cc True w)) = happened EvFull w + 1) \<and>
         (\<forall>result w2.
            verify_card_with_cached_session E cd cached_session w1 = (Inr (Some result), w2) \<longrightarrow>
            worldpay_auth_with_cache E cc True w = (Inr (Some result), w2) \<and>
            happened EvFull w2 = happened EvFull w) \<and>
         (\<forall>cookies. cached_session_fields cached_session = Inr cookies \<longrightarrow>
            (fst (verify_card_with_cached_session E cd cached_session w1) = Inr None) =
            (\<forall>resp. deciding_attempt E (net_calls w1) = Responds resp \<longrightarrow>
                    status_code resp \<noteq> 200))"
proof (intro conjI allI impI)
  have o: "outer EvFull" by (simp add: outer_def)
  have t1: "happened EvFull w1 = happened EvFull w"
    using get_session_trace [of E "StoreInt 1021" "new_SessionCache w"] assms(2)
    by (simp add: happened_def new_SessionCache_trace)
  {
    fix w2
    assume v: "verify_card_with_cached_session E cd cached_session w1 = (Inr None, w2)"
    with verify_times [OF o, of E cd cached_session w1] t1
    have t2: "happened EvFull w2 = happened EvFull w" by simp
    have eq: "worldpay_auth_with_cache E cc True w = worldpay_auth E cd w2"
      using assms v by (simp add: worldpay_auth_with_cache_def)
    show "worldpay_auth_with_cache E cc True w = worldpay_auth E cd w2" by (rule eq)
    show "happened EvFull (snd (worldpay_auth_with_cache E cc True w)) = happened EvFull w + 1"
      using eq t2 worldpay_auth_times [OF o, of E cd w2] by simp
  }
  {
    fix result w2
    assume v: "verify_card_with_cached_session E cd cached_session w1 = (Inr (Some result), w2)"
    show "worldpay_auth_with_cache E cc True w = (Inr (Some result), w2)"
      using assms v by (simp add: worldpay_auth_with_cache_def)
    show "happened EvFull w2 = happened EvFull w"
      using verify_times [OF o, of E cd cached_session w1] t1 v by simp
  }
  {
    fix cookies
    assume "cached_session_fields cached_session = Inr cookies"
    then show "(fst (verify_card_with_cached_session E cd cached_session w1) = Inr None) =
            (\<forall>resp. deciding_attempt E (net_calls w1) = Responds resp \<longrightarrow>
                    status_code resp \<noteq> 200)"
      by (rule verify_None_iff)
  }
qed

theorem cached_failure_falls_back_once_witness:
  "happened EvFull
     (snd (worldpay_auth_with_cache offline_env ''4111111111111111|12|25|123'' True
             (start_world (Content (JObj [(''1021'', saved_session)]))))) = 1"
proof -
  let ?cc = "''4111111111111111|12|25|123''"
  let ?cd = "(''4111111111111111'', ''12'', ''25'', ''123'')"
  let ?w = "start_world (Content (JObj [(''1021'', saved_session)]))"
  let ?w1 = "?w\<lparr>clock_reads := 1, sessions := JObj [(''1021'', saved_session)]\<rparr>"
  have p: "parse_card ?cc = Inr ?cd"
    by (simp add: parse_card_def findall_digits_def is_digit_def)
  have k: "str_int 1021 = ''1021''"
    by (simp add: str_int_def str_nat.simps digit_char_def)
  have g: "get_session offline_env (StoreInt 1021) (new_SessionCache ?w) = (Inr saved_session, ?w1)"
    by (simp add: get_session_def new_SessionCache_def load_cache_def load_cache_try_def
          start_world_def then_do_def time_time_def k saved_session_def offline_env_def Let_def)
  have t: "truthy saved_session" by (simp add: saved_session_def)
  have f: "cached_session_fields saved_session = Inr (JObj [])"
    by (simp add: cached_session_fields_def saved_session_def then_do_def)
  have d: "\<forall>resp. deciding_attempt offline_env (net_calls ?w1) = Responds resp \<longrightarrow>
             status_code resp \<noteq> 200"
    by (simp add: deciding_attempt_def offline_env_def)
  note fb = cached_failure_falls_back_once [OF p g t]
  from fb f d have "fst (verify_card_with_cached_session offline_env ?cd saved_session ?w1) = Inr None"
    by blast
  then have v: "verify_card_with_cached_session offline_env ?cd saved_session ?w1 =
      (Inr None, snd (verify_card_with_cached_session offline_env ?cd saved_session ?w1))"
    by (cases "verify_card_with_cached_session offline_env ?cd saved_session ?w1") simp
  with fb have "happened EvFull (snd (worldpay_auth_with_cache offline_env ?cc True ?w)) =
      happened EvFull ?w + 1"
    by blast
  then show ?thesis by (simp add: happened_def start_world_def)
qed

section \<open>check_card: proofs\<close>

lemma time_time_trace: "trace (snd (time_time E w)) = trace w"
  by (simp add: time_time_def)

lemma check_card_try_outcome:
  "(\<forall>c t. fst (check_card_try E cc w) \<noteq> Inr (NotProcessed c t)) \<and>
   happened EvRetryFull (snd (check_card_try E cc w)) = happened EvRetryFull w"
proof (cases "cc = [] \<or> \<not> contains ''|'' cc")
  case True
  then show ?thesis by (auto simp: check_card_try_def)
next
  case False
  obtain r w1 where a: "worldpay_auth_with_cache E cc True w = (r, w1)"
    by (cases "worldpay_auth_with_cache E cc True w")
  with with_cache_not_None [of E cc True w] have n: "r \<noteq> Inr None" by simp
  from a with_cache_times [of E cc True w]
  have t: "happened EvRetryFull w1 = happened EvRetryFull w" by simp
  show ?thesis
  proof (cases r)
    case (Inl e)
    with False a t show ?thesis by (simp add: check_card_try_def)
  next
    case (Inr v)
    with n obtain s m where v: "v = Some (s, m)" by (cases v) auto
    with False a t Inr show ?thesis
      by (simp add: check_card_try_def time_time_def happened_def)
  qed
qed

lemma check_card_outcome:
  "(\<forall>c t. fst (check_card E cc w) \<noteq> Inr (NotProcessed c t)) \<and>
   happened EvRetryFull (snd (check_card E cc w)) = happened EvRetryFull w"
proof -
  obtain r w1 where a: "check_card_try E cc w = (r, w1)" by (cases "check_card_try E cc w")
  with check_card_try_outcome [of E cc w]
  have n: "\<forall>c t. r \<noteq> Inr (NotProcessed c t)"
    and t: "happened EvRetryFull w1 = happened EvRetryFull w" by simp_all
  show ?thesis
  proof (cases r)
    case (Inr v)
    with a n t show ?thesis by (simp add: check_card_def)
  next
    case (Inl e)
    with a t show ?thesis
      by (cases e) (simp_all add: check_card_def time_time_def happened_def)
  qed
qed

text \<open>
  C9. \<open>worldpay_auth_with_cache\<close> never returns None; when the cached-session path yields
  None, what it returns is the pair of the full flow. So \<open>check_card\<close> never announces the
  second full-flow retry and never answers with the "Failed to process card" response.
\<close>

theorem with_cache_never_None:
  "fst (worldpay_auth_with_cache E cc use_cache w) \<noteq> Inr None \<and>
   (\<forall>cd cached_session w1 w2.
      parse_card cc = Inr cd \<and>
      get_session E (StoreInt 1021) (new_SessionCache w) = (Inr cached_session, w1) \<and>
      truthy cached_session \<and>
      verify_card_with_cached_session E cd cached_session w1 = (Inr None, w2) \<longrightarrow>
      (\<exists>r. fst (worldpay_auth_with_cache E cc True w) = Inr (Some r) \<and>
           fst (worldpay_auth E cd w2) = Inr (Some r))) \<and>
   (\<forall>c t. fst (check_card E cc w) \<noteq> Inr (NotProcessed c t)) \<and>
   happened EvRetryFull (snd (check_card E cc w)) = happened EvRetryFull w"
proof (intro conjI allI impI)
  show "fst (worldpay_auth_with_cache E cc use_cache w) \<noteq> Inr None"
    by (rule with_cache_not_None)
next
  fix cd cached_session w1 w2
  assume a: "parse_card cc = Inr cd \<and>
      get_session E (StoreInt 1021) (new_SessionCache w) = (Inr cached_session, w1) \<and>
      truthy cached_session \<and>
      verify_card_with_cached_session E cd cached_session w1 = (Inr None, w2)"
  then have eq: "worldpay_auth_with_cache E cc True w = worldpay_auth E cd w2"
    by (simp add: worldpay_auth_with_cache_def)
  from worldpay_auth_pair [of E cd w2] obtain r where "fst (worldpay_auth E cd w2) = Inr (Some r)"
    by blast
  with eq show "\<exists>r. fst (worldpay_auth_with_cache E cc True w) = Inr (Some r) \<and>
           fst (worldpay_auth E cd w2) = Inr (Some r)"
    by simp
next
  fix c t
  show "fst (check_card E cc w) \<noteq> Inr (NotProcessed c t)"
    using check_card_outcome [of E cc w] by blast
next
  show "happened EvRetryFull (snd (check_card E cc w)) = happened EvRetryFull w"
    using check_card_outcome [of E cc w] by blast
qed

theorem with_cache_never_None_witness:
  "fst (worldpay_auth_with_cache offline_env ''4111111111111111|12|25|123'' False
          (start_world NoFile)) \<noteq> Inr None \<and>
   happened EvRetryFull
     (snd (check_card offline_env ''4111111111111111|12|25|123'' (start_world NoFile))) = 0"
  using with_cache_never_None
    [of offline_env "''4111111111111111|12|25|123''" False "start_world NoFile"]
  by (simp add: happened_def start_world_def)

text \<open>
  C6, what the code does for a malformed parameter. When \<open>cc\<close> is empty or has no \<open>"|"\<close>,
  the HTTPException with status 400 raised in the body is caught by the handler for
  \<open>Exception\<close>: the flow is not started, and the endpoint answers with the JSON response
  of status 500 whose message is the text of the exception.
\<close>

theorem check_card_bad_format_answers_500:
  assumes "cc = [] \<or> \<not> contains ''|'' cc"
  shows "check_card E cc w =
           (Inr (Crashed cc (str_exn (HTTPException 400 invalid_format_detail))
                   (int_of_float (clock E (clock_reads w)))),
            w\<lparr>clock_reads := Suc (clock_reads w)\<rparr>) \<and>
         http_status (fst (check_card E cc w)) = 500"
  using assms by (auto simp: check_card_def check_card_try_def time_time_def)

theorem check_card_bad_format_answers_500_witness:
  "http_status (fst (check_card offline_env ''4111111111111111'' (start_world NoFile))) = 500 \<and>
   net_calls (snd (check_card offline_env ''4111111111111111'' (start_world NoFile))) = 0"
proof -
  have n: "''4111111111111111'' = [] \<or> \<not> contains ''|'' ''4111111111111111''"
    by (simp add: starts_with_def)
  show ?thesis
    using check_card_bad_format_answers_500 [OF n, of offline_env "start_world NoFile"]
    by (simp add: start_world_def)
qed

text \<open>
  The sibling path: a parameter with a \<open>"|"\<close> but fewer than four digit runs raises
  ValueError in \<open>parse_card\<close>, and the handler for ValueError raises the HTTPException
  with status 400, which the framework answers with status 400.
\<close>

lemma check_card_parse_error_answers_400:
  assumes "cc \<noteq> []" "contains ''|'' cc" "parse_card cc = Inl e"
  shows "check_card E cc w = (Inl (HTTPException 400 card_format_message), w) \<and>
         http_status (fst (check_card E cc w)) = 400"
proof -
  from assms(3) have "e = ValueError card_format_message"
    by (auto simp: parse_card_def split: list.splits)
  with assms show ?thesis
    by (simp add: check_card_def check_card_try_def worldpay_auth_with_cache_def)
qed

text \<open>
  The other half of the endpoint: for a parameter that passes the format check, whenever
  \<open>worldpay_auth_with_cache\<close> returns, the answer is the JSON response with success true,
  the status in upper case and the message.
\<close>

lemma classify_cached_status: "classify_cached resp = Inr r \<Longrightarrow> status_ok r"
  by (auto simp: classify_cached_def status_ok_def split: option.splits sum.splits if_splits)

lemma verify_status:
  "fst (verify_card_with_cached_session E cd cs w) = Inr (Some r) \<Longrightarrow> status_ok r"
  using classify_cached_status
  by (cases cd)
     (auto simp: verify_card_with_cached_session_def split: sum.splits prod.splits if_splits)

lemma with_cache_status:
  assumes "fst (worldpay_auth_with_cache E cc use_cache w) = Inr result"
  shows "\<exists>r. result = Some r \<and> status_ok r"
proof -
  have full: "\<And>cd w1. fst (worldpay_auth E cd w1) = Inr result \<Longrightarrow> ?thesis"
    using worldpay_auth_pair by (metis Inr_inject)
  have quick: "\<And>cd cs w1 w2 r. verify_card_with_cached_session E cd cs w1 = (Inr (Some r), w2) \<Longrightarrow>
                 status_ok r"
    using verify_status by (metis fst_conv)
  from assms show ?thesis
    by (auto simp: worldpay_auth_with_cache_def
        split: sum.splits prod.splits option.splits if_splits
        dest: full quick)
qed

lemma upper_status:
  "status_ok (s, m) \<Longrightarrow> upper s = ''APPROVED'' \<or> upper s = ''DECLINED'' \<or> upper s = ''ERROR''"
  by (auto simp: status_ok_def upper_def upper_char_def)

lemma check_card_checked:
  assumes "cc \<noteq> []" "contains ''|'' cc"
    and "fst (worldpay_auth_with_cache E cc True w) = Inr result"
  shows "\<exists>s m t. result = Some (s, m) \<and>
           fst (check_card E cc w) = Inr (Checked cc (upper s) m t) \<and>
           (upper s = ''APPROVED'' \<or> upper s = ''DECLINED'' \<or> upper s = ''ERROR'')"
proof -
  from with_cache_status [OF assms(3)] obtain s m where
    r: "result = Some (s, m)" "status_ok (s, m)" by (metis prod.collapse)
  obtain w1 where a: "worldpay_auth_with_cache E cc True w = (Inr (Some (s, m)), w1)"
    using assms(3) r(1) by (cases "worldpay_auth_with_cache E cc True w") simp
  have "fst (check_card E cc w) =
      Inr (Checked cc (upper s) m (int_of_float (clock E (clock_reads w1))))"
    using assms(1,2) a by (simp add: check_card_def check_card_try_def time_time_def)
  with r upper_status [OF r(2)] show ?thesis by blast
qed

end
